theory Spec2Isabelle
  imports Complex_Main
begin

section \<open>Type-level numeric comparison (greater-than.types.ts)\<close>

text \<open>
  The library computes inside the TypeScript type checker. A type alias is embedded as
  the function the checker evaluates when the alias is instantiated with concrete
  types: a conditional type \<open>X extends Y ? A : B\<close> becomes an \<open>if\<close>, a recursive alias
  a recursive function, and the type \<open>never\<close> the failure value of the result.

  A type argument \<open>A extends number\<close> is, after distribution over unions, either a
  number literal type or the broad type \<open>number\<close>. A number literal type is an IEEE
  double, and all the source reads of it is its template string \<open>`${N}`\<close>, the
  ECMAScript text of the number: \<open>42\<close>, \<open>-7\<close>, \<open>1.5\<close>, \<open>1e+21\<close>, \<open>-Infinity\<close>. The
  model names a literal type by that string. Two literals that are written differently
  and denote the same double are one type, with one template string. The conversion of a
  number to its text belongs to the language and is not computed here.
\<close>

datatype num_ty = Lit string | NumberTy

subsection \<open>Digit and string comparison\<close>

definition DigitString :: string where
  "DigitString = ''0123456789''"

definition is_Digit :: "char \<Rightarrow> bool" where
  "is_Digit c = (c \<in> set DigitString)"

text \<open>
  \<open>DigitString extends `${string}${B}${string}${A}${string}`\<close>: some occurrence of
  \<open>B\<close> in the digit string is followed, later, by an occurrence of \<open>A\<close>.
\<close>

definition DigitGreaterThan :: "char \<Rightarrow> char \<Rightarrow> bool" where
  "DigitGreaterThan A B =
     (if A = B then False
      else A \<in> set (drop 1 (dropWhile (\<lambda>c. c \<noteq> B) DigitString)))"

fun CompareSameLengthPositive :: "string \<Rightarrow> string \<Rightarrow> int" where
  "CompareSameLengthPositive (DA # RestA) (DB # RestB) =
     (if is_Digit DA then
        (if is_Digit DB then
           (if DA = DB then CompareSameLengthPositive RestA RestB
            else if DigitGreaterThan DA DB then 1 else - 1)
         else 0)
      else 0)"
| "CompareSameLengthPositive (DA # RestA) [] = 0"
| "CompareSameLengthPositive [] B = 0"

fun IsLonger :: "string \<Rightarrow> string \<Rightarrow> bool" where
  "IsLonger (a # RestA) (b # RestB) = IsLonger RestA RestB"
| "IsLonger (a # RestA) [] = True"
| "IsLonger [] B = False"

definition PositiveStringGreaterThan :: "string \<Rightarrow> string \<Rightarrow> bool" where
  "PositiveStringGreaterThan A B =
     (if IsLonger A B then True
      else if IsLonger B A then False
      else CompareSameLengthPositive A B = 1)"

text \<open>
  \<open>IsNegative\<close>, \<open>AbsoluteString\<close> and \<open>CompareFinite\<close> take a literal type by its
  template string \<open>`${N}`\<close>.
\<close>

definition IsNegative :: "string \<Rightarrow> bool" where
  "IsNegative N = (case N of c # s \<Rightarrow> c = CHR ''-'' | [] \<Rightarrow> False)"

definition AbsoluteString :: "string \<Rightarrow> string" where
  "AbsoluteString N =
     (case N of
        [] \<Rightarrow> []
      | c # Abs \<Rightarrow> if c = CHR ''-'' then Abs else c # Abs)"

definition CompareFinite :: "string \<Rightarrow> string \<Rightarrow> bool" where
  "CompareFinite A B =
     (if IsNegative A \<and> IsNegative B then
        PositiveStringGreaterThan (AbsoluteString B) (AbsoluteString A)
      else if IsNegative A \<and> \<not> IsNegative B then False
      else if \<not> IsNegative A \<and> IsNegative B then True
      else PositiveStringGreaterThan (AbsoluteString A) (AbsoluteString B))"

text \<open>
  \<open>IsEqual<A, B>\<close> is \<open>[A] extends [B]\<close> both ways: the two types are the same.
  \<open>typeof Infinity\<close> is the broad \<open>number\<close> (the standard library declares
  \<open>Infinity: number\<close>). \<open>typeof NegativeInfinity\<close> reads the declared constant
  \<open>NegativeInfinity\<close>, whose type is a \<open>unique symbol\<close>, not the type alias of the same
  name: no number type equals it, and the literal \<open>-1e999\<close> reaches \<open>CompareFinite\<close>
  with the template string \<open>-Infinity\<close>.
\<close>

datatype operand = NumberType num_ty | UniqueSymbol

definition IsEqual :: "operand \<Rightarrow> operand \<Rightarrow> bool" where
  "IsEqual A B = (A = B)"

definition typeof_Infinity :: operand where
  "typeof_Infinity = NumberType NumberTy"

definition typeof_NegativeInfinity :: operand where
  "typeof_NegativeInfinity = UniqueSymbol"

text \<open>The last branch is reached with two literal types only.\<close>

definition IsGreaterThan :: "num_ty \<Rightarrow> num_ty \<Rightarrow> bool" where
  "IsGreaterThan A B =
     (let AIsInf = IsEqual (NumberType A) typeof_Infinity;
          AIsNegInf = IsEqual (NumberType A) typeof_NegativeInfinity;
          BIsInf = IsEqual (NumberType B) typeof_Infinity;
          BIsNegInf = IsEqual (NumberType B) typeof_NegativeInfinity
      in if AIsInf then (if BIsInf then False else True)
         else if BIsNegInf then (if AIsNegInf then False else True)
         else if AIsNegInf then False
         else if BIsInf then False
         else (case (A, B) of
                 (Lit a, Lit b) \<Rightarrow> CompareFinite a b
               | _ \<Rightarrow> False))"

definition LessThan :: "num_ty \<Rightarrow> num_ty \<Rightarrow> bool" where
  "LessThan A B = IsGreaterThan B A"

text \<open>
  \<open>A extends B\<close> for a number type \<open>A\<close>: the same type, or \<open>B\<close> is the broad
  \<open>number\<close>.
\<close>

definition num_extends :: "num_ty \<Rightarrow> num_ty \<Rightarrow> bool" where
  "num_extends A B = (A = B \<or> B = NumberTy)"

definition GreaterThanOrEqual :: "num_ty \<Rightarrow> num_ty \<Rightarrow> bool" where
  "GreaterThanOrEqual A B = (if num_extends A B then True else IsGreaterThan A B)"

definition LessThanOrEqual :: "num_ty \<Rightarrow> num_ty \<Rightarrow> bool" where
  "LessThanOrEqual A B = (if num_extends A B then True else LessThan A B)"

subsection \<open>Numbers and their texts\<close>

text \<open>
  Not part of the source: the decimal digits of an integer, with a minus sign when it is
  negative. This is the template string of the integer literal \<open>n\<close> when \<open>n\<close> is at most
  \<open>2^53\<close> in absolute value: every such integer is an IEEE double of its own and prints
  as its digits. A larger integer need not be a double of its own (\<open>9007199254740993\<close>
  is the double \<open>9007199254740992\<close>), and from \<open>10^21\<close> on a number prints in exponent
  notation.
\<close>

fun dec :: "nat \<Rightarrow> string" where
  "dec n = (if n < 10 then [DigitString ! n] else dec (n div 10) @ [DigitString ! (n mod 10)])"

declare dec.simps [simp del]

definition int_text :: "int \<Rightarrow> string" where
  "int_text n = (if n < 0 then CHR ''-'' # dec (nat (- n)) else dec (nat n))"

text \<open>
  Not part of the source: the number a finite template string denotes. The text has an
  optional minus sign, digits, an optional fraction after a point and an optional
  exponent after \<open>e\<close>; \<open>None\<close> for any other text.
\<close>

definition digit_val :: "char \<Rightarrow> nat" where
  "digit_val c = length (takeWhile (\<lambda>d. d \<noteq> c) DigitString)"

fun val :: "string \<Rightarrow> nat" where
  "val [] = 0"
| "val (c # s) = digit_val c * 10 ^ length s + val s"

definition digits_value :: "string \<Rightarrow> nat option" where
  "digits_value s = (if s \<noteq> [] \<and> list_all is_Digit s then Some (val s) else None)"

fun split_at :: "char \<Rightarrow> string \<Rightarrow> string \<times> string option" where
  "split_at c [] = ([], None)"
| "split_at c (x # s) =
     (if x = c then ([], Some s)
      else (case split_at c s of (before, rest) \<Rightarrow> (x # before, rest)))"

fun fraction_value :: "string option \<Rightarrow> rat option" where
  "fraction_value None = Some 0"
| "fraction_value (Some f) = map_option (\<lambda>n. of_nat n / 10 ^ length f) (digits_value f)"

fun exponent_value :: "string option \<Rightarrow> rat option" where
  "exponent_value None = Some 1"
| "exponent_value (Some e) =
     (case e of
        c # d \<Rightarrow>
          if c = CHR ''+'' then map_option (\<lambda>n. 10 ^ n) (digits_value d)
          else if c = CHR ''-'' then map_option (\<lambda>n. 1 / 10 ^ n) (digits_value d)
          else map_option (\<lambda>n. 10 ^ n) (digits_value e)
      | [] \<Rightarrow> None)"

definition unsigned_value :: "string \<Rightarrow> rat option" where
  "unsigned_value s =
     (case split_at CHR ''e'' s of
        (mantissa, e) \<Rightarrow>
          (case split_at CHR ''.'' mantissa of
             (i, f) \<Rightarrow>
               (case (digits_value i, fraction_value f, exponent_value e) of
                  (Some a, Some b, Some c) \<Rightarrow> Some ((of_nat a + b) * c)
                | _ \<Rightarrow> None)))"

definition text_value :: "string \<Rightarrow> rat option" where
  "text_value s =
     (case s of
        c # r \<Rightarrow> if c = CHR ''-'' then map_option uminus (unsigned_value r) else unsigned_value s
      | [] \<Rightarrow> None)"

section \<open>Version validation (migration-builder.types.ts)\<close>




section \<open>Value types and key paths (migration-builder.types.ts)\<close>

subsection \<open>The types the validators are instantiated with\<close>

text \<open>
  The value types of the model: the primitive types, number and string literal types,
  \<open>Date\<close>, the buffer types of \<open>BufferSource\<close>, method types (opaque), the alias
  \<open>IDBValidKey\<close> itself, arrays \<open>E[]\<close>, tuples, object types given by their data
  properties (name, optional or not, type) and unions. \<open>any\<close>, intersections, index
  signatures, readonly arrays and enums are outside the model, and an object type is
  taken for what its properties say (not for a structural twin of a built-in interface).
\<close>

datatype ty =
    TNever | TUnknown | TUndefined | TNull | TBoolean | TNumber | TString
  | TNumLit int | TStrLit string
  | TDate | TBuffer | TFun | TIDBValidKey
  | TArray ty | TTuple "ty list"
  | TObject "(string \<times> bool \<times> ty) list"
  | TUnion "ty list"

text \<open>
  The members of the built-in interfaces (\<open>length\<close> of a string or an array, the
  methods of \<open>String\<close>, \<open>Array\<close>, \<open>Date\<close>, ...) are declared by the standard library,
  not by this repository: the table of these members is a parameter of the model.
\<close>

type_synonym lib = "ty \<Rightarrow> (string \<times> ty) list"

text \<open>
  The constituents a distributive conditional type is evaluated on, one by one, when
  its checked type parameter is instantiated with the type.
  \<open>IDBValidKey = number | string | Date | BufferSource | IDBValidKey[]\<close>.
  \<open>boolean\<close> is kept whole: its two literal types fare alike in every check here.
\<close>

fun members :: "ty \<Rightarrow> ty list" where
  "members TNever = []"
| "members (TUnion ts) = concat (map members ts)"
| "members TIDBValidKey = [TNumber, TString, TDate, TBuffer, TArray TIDBValidKey]"
| "members t = [t]"

text \<open>\<open>X extends IDBValidKey\<close>, the type \<open>X\<close> checked as a whole (assignability).\<close>

fun extends_IDBValidKey :: "ty \<Rightarrow> bool" where
  "extends_IDBValidKey TNever = True"
| "extends_IDBValidKey TNumber = True"
| "extends_IDBValidKey (TNumLit n) = True"
| "extends_IDBValidKey TString = True"
| "extends_IDBValidKey (TStrLit s) = True"
| "extends_IDBValidKey TDate = True"
| "extends_IDBValidKey TBuffer = True"
| "extends_IDBValidKey TIDBValidKey = True"
| "extends_IDBValidKey (TArray e) = extends_IDBValidKey e"
| "extends_IDBValidKey (TTuple es) = list_all extends_IDBValidKey es"
| "extends_IDBValidKey (TUnion ts) = list_all extends_IDBValidKey ts"
| "extends_IDBValidKey t = False"

text \<open>
  \<open>X extends number\<close> and \<open>number extends X\<close>, checked as a whole. \<open>number\<close> is
  assignable to itself, to \<open>unknown\<close>, to a union with a constituent it is assignable
  to, and to the empty object type \<open>{}\<close>.
\<close>

fun extends_number :: "ty \<Rightarrow> bool" where
  "extends_number TNever = True"
| "extends_number TNumber = True"
| "extends_number (TNumLit n) = True"
| "extends_number (TUnion ts) = list_all extends_number ts"
| "extends_number t = False"

fun number_extends :: "ty \<Rightarrow> bool" where
  "number_extends TNumber = True"
| "number_extends TUnknown = True"
| "number_extends TIDBValidKey = True"
| "number_extends (TObject ps) = (ps = [])"
| "number_extends (TUnion ts) = list_ex number_extends ts"
| "number_extends t = False"

text \<open>
  \<open>K extends keyof T\<close> and the indexed access \<open>T[K]\<close> for a string literal \<open>K\<close>:
  \<open>None\<close> when \<open>K\<close> is not a key of \<open>T\<close>, the type \<open>T[K]\<close> otherwise. An optional
  property reads as its type or \<open>undefined\<close>; the keys of a union are the keys of all
  its constituents; \<open>keyof never\<close> is every key and \<open>never[K]\<close> is \<open>never\<close>;
  \<open>unknown\<close>, \<open>undefined\<close>, \<open>null\<close> and a method type have no keys.
\<close>

fun prop_ty :: "lib \<Rightarrow> ty \<Rightarrow> string \<Rightarrow> ty option" where
  "prop_ty L (TObject ps) k =
     (case map_of ps k of
        None \<Rightarrow> None
      | Some (optional, t) \<Rightarrow> Some (if optional then TUnion [t, TUndefined] else t))"
| "prop_ty L (TUnion ts) k = map_option TUnion (those (map (\<lambda>t. prop_ty L t k) ts))"
| "prop_ty L TIDBValidKey k =
     map_option TUnion (those (map (\<lambda>t. map_of (L t) k) (members TIDBValidKey)))"
| "prop_ty L TNever k = Some TNever"
| "prop_ty L TUnknown k = None"
| "prop_ty L TUndefined k = None"
| "prop_ty L TNull k = None"
| "prop_ty L TFun k = None"
| "prop_ty L t k = map_of (L t) k"

subsection \<open>Key paths\<close>

text \<open>
  A key path argument: \<open>undefined\<close>, a string literal, a literal tuple of string
  literals, or the widened \<open>readonly string[]\<close>.
\<close>

datatype key_path =
    PathUndefined
  | PathString string
  | PathTuple "string list"
  | PathStringArray

text \<open>
  \<open>Path extends `${infer First}.${infer Rest}`\<close>: \<open>First\<close> is the text before the first
  dot, \<open>Rest\<close> the text after it; no match without a dot.
\<close>

fun split_dot :: "string \<Rightarrow> (string \<times> string) option" where
  "split_dot [] = None"
| "split_dot (c # s) =
     (if c = CHR ''.'' then Some ([], s)
      else map_option (\<lambda>(First, Rest). (c # First, Rest)) (split_dot s))"

lemma split_dot_shorter: "split_dot p = Some (First, Rest) \<Longrightarrow> length Rest < length p"
  by (induction p arbitrary: First) (auto split: if_splits)

text \<open>
  The results are the path itself or \<open>never\<close> (\<open>None\<close>). In
  \<open>T extends IDBValidKey ? Path : never\<close> the checked type is the type parameter \<open>T\<close>:
  the conditional type distributes over the constituents of \<open>T\<close> and the result is the
  union of their results. In \<open>T[Path] extends IDBValidKey\<close> the checked type is an
  indexed access, which is checked as a whole.
\<close>

function ValidateStringPath :: "lib \<Rightarrow> ty \<Rightarrow> string \<Rightarrow> string option" where
  "ValidateStringPath L T Path =
     (if Path = [] then
        (if list_ex extends_IDBValidKey (members T) then Some Path else None)
      else case split_dot Path of
             Some (First, Rest) \<Rightarrow>
               (case prop_ty L T First of
                  Some TFirst \<Rightarrow>
                    (if ValidateStringPath L TFirst Rest = None then None else Some Path)
                | None \<Rightarrow> None)
           | None \<Rightarrow>
               (case prop_ty L T Path of
                  Some TPath \<Rightarrow> (if extends_IDBValidKey TPath then Some Path else None)
                | None \<Rightarrow> None))"
  by pat_completeness auto
termination
  by (relation "measure (\<lambda>(L, T, Path). length Path)") (auto dest: split_dot_shorter)

declare ValidateStringPath.simps [simp del]

function (sequential) ValidateArrayPath :: "lib \<Rightarrow> ty \<Rightarrow> key_path \<Rightarrow> ty \<Rightarrow> key_path option" where
  "ValidateArrayPath L T (PathTuple (First # Rest)) OriginalT =
     (case split_dot First of
        Some (K, Nested) \<Rightarrow>
          (case prop_ty L T K of
             Some TK \<Rightarrow>
               (if ValidateStringPath L TK Nested = None then None
                else if Rest = [] then Some (PathTuple (First # Rest))
                else if ValidateArrayPath L OriginalT (PathTuple Rest) OriginalT = None then None
                else Some (PathTuple (First # Rest)))
           | None \<Rightarrow> None)
      | None \<Rightarrow>
          (case prop_ty L T First of
             Some TFirst \<Rightarrow>
               (if extends_IDBValidKey TFirst then
                  (if Rest = [] then Some (PathTuple (First # Rest))
                   else if ValidateArrayPath L OriginalT (PathTuple Rest) OriginalT = None then None
                   else Some (PathTuple (First # Rest)))
                else None)
           | None \<Rightarrow> None))"
| "ValidateArrayPath L T (PathTuple []) OriginalT = Some (PathTuple [])"
| "ValidateArrayPath L T PathStringArray OriginalT = Some PathStringArray"
| "ValidateArrayPath L T Path OriginalT = None"
  by pat_completeness auto
termination
  by (relation "measure (\<lambda>(L, T, Path, OriginalT). case Path of PathTuple ps \<Rightarrow> length ps | _ \<Rightarrow> 0)")
    auto

declare ValidateArrayPath.simps [simp del]

definition ValidateKeyPath :: "lib \<Rightarrow> ty \<Rightarrow> key_path \<Rightarrow> key_path option" where
  "ValidateKeyPath L T Path =
     (case Path of
        PathUndefined \<Rightarrow> Some PathUndefined
      | PathString p \<Rightarrow> map_option PathString (ValidateStringPath L T p)
      | _ \<Rightarrow> ValidateArrayPath L T Path T)"

subsection \<open>Resolving key paths\<close>

function ResolveSingleKeyPath :: "lib \<Rightarrow> ty \<Rightarrow> string \<Rightarrow> ty" where
  "ResolveSingleKeyPath L T Path =
     (case split_dot Path of
        Some (First, Rest) \<Rightarrow>
          (case prop_ty L T First of
             Some TFirst \<Rightarrow> ResolveSingleKeyPath L TFirst Rest
           | None \<Rightarrow> TNever)
      | None \<Rightarrow>
          (case prop_ty L T Path of
             Some TPath \<Rightarrow> TPath
           | None \<Rightarrow> TNever))"
  by pat_completeness auto
termination
  by (relation "measure (\<lambda>(L, T, Path). length Path)") (auto dest: split_dot_shorter)

declare ResolveSingleKeyPath.simps [simp del]

text \<open>The elements of a tuple type, for the spread \<open>...X\<close> inside a tuple.\<close>

fun tuple_elements :: "ty \<Rightarrow> ty list" where
  "tuple_elements (TTuple es) = es"
| "tuple_elements t = []"

function (sequential) ResolveArrayKeyPath :: "lib \<Rightarrow> ty \<Rightarrow> key_path \<Rightarrow> ty" where
  "ResolveArrayKeyPath L T (PathTuple (First # Rest)) =
     TTuple (ResolveSingleKeyPath L T First
             # tuple_elements (ResolveArrayKeyPath L T (PathTuple Rest)))"
| "ResolveArrayKeyPath L T Paths = TTuple []"
  by pat_completeness auto
termination
  by (relation "measure (\<lambda>(L, T, Paths). case Paths of PathTuple ps \<Rightarrow> length ps | _ \<Rightarrow> 0)")
    auto

definition ResolveKeyPath :: "lib \<Rightarrow> ty \<Rightarrow> key_path \<Rightarrow> ty" where
  "ResolveKeyPath L T Path =
     (case Path of
        PathUndefined \<Rightarrow> TIDBValidKey
      | PathTuple ps \<Rightarrow> ResolveArrayKeyPath L T Path
      | PathStringArray \<Rightarrow> ResolveArrayKeyPath L T Path
      | PathString p \<Rightarrow> ResolveSingleKeyPath L T p)"

subsection \<open>Auto-increment keys and multi-entry indexes\<close>

text \<open>\<open>AutoIncrement extends boolean | undefined\<close>: \<open>None\<close> is \<open>undefined\<close>.\<close>

definition ValidateAutoIncrementKey :: "lib \<Rightarrow> ty \<Rightarrow> key_path \<Rightarrow> bool option \<Rightarrow> key_path option" where
  "ValidateAutoIncrementKey L T Path AutoIncrement =
     (if AutoIncrement = Some True then
        (case Path of
           PathString p \<Rightarrow>
             (if number_extends (ResolveSingleKeyPath L T p) then Some Path
              else if extends_number (ResolveSingleKeyPath L T p) then Some Path
              else None)
         | PathUndefined \<Rightarrow> Some Path
         | _ \<Rightarrow> None)
      else Some Path)"

text \<open>
  \<open>R extends (infer E)[]\<close>, with \<open>R\<close> checked as a whole: every constituent of \<open>R\<close>
  has to be an array or a tuple, each gives its element type as a candidate (for a tuple
  the union of its elements, which is \<open>never\<close> for the empty tuple), and \<open>E\<close> is
  inferred as the union of the candidates, or as \<open>unknown\<close> when \<open>R\<close> is \<open>never\<close> and
  there is no candidate.
\<close>

fun element_candidates :: "ty \<Rightarrow> ty list option" where
  "element_candidates (TArray e) = Some [e]"
| "element_candidates (TTuple es) = Some [TUnion es]"
| "element_candidates t = None"

definition infer_element :: "ty \<Rightarrow> ty option" where
  "infer_element R =
     (case those (map element_candidates (members R)) of
        None \<Rightarrow> None
      | Some cs \<Rightarrow> Some (if concat cs = [] then TUnknown else TUnion (concat cs)))"

text \<open>
  The result is a union of the boolean literal types, given as the set of its
  constituents: \<open>{True}\<close> is \<open>true\<close>, \<open>{False}\<close> is \<open>false\<close>, \<open>{True, False}\<close> is
  \<open>boolean\<close> and \<open>{}\<close> is \<open>never\<close>. \<open>E extends IDBValidKey\<close> checks the inferred type
  parameter \<open>E\<close> and distributes over its constituents.
\<close>

definition ValidateMultiEntryIndex :: "lib \<Rightarrow> ty \<Rightarrow> string \<Rightarrow> bool \<Rightarrow> bool set" where
  "ValidateMultiEntryIndex L Value KeyPath MultiEntry =
     (if MultiEntry then
        (case infer_element (ResolveKeyPath L Value (PathString KeyPath)) of
           Some E \<Rightarrow> set (map extends_IDBValidKey (members E))
         | None \<Rightarrow> {False})
      else {True})"

text \<open>
  A few members of the standard library's interfaces, to evaluate examples with.
\<close>

fun sample_lib :: lib where
  "sample_lib TString = [(''length'', TNumber), (''charAt'', TFun)]"
| "sample_lib (TStrLit s) = [(''length'', TNumber), (''charAt'', TFun)]"
| "sample_lib (TArray e) = [(''length'', TNumber), (''push'', TFun)]"
| "sample_lib (TTuple es) = [(''length'', TNumLit (int (length es))), (''push'', TFun)]"
| "sample_lib TNumber = [(''toFixed'', TFun)]"
| "sample_lib (TNumLit n) = [(''toFixed'', TFun)]"
| "sample_lib TDate = [(''getTime'', TFun)]"
| "sample_lib t = []"

section \<open>Schema alteration and store update (migration-builder.types.ts)\<close>

subsection \<open>Zod schemas\<close>

text \<open>
  The schema library is not part of the repository. Of a schema type the source uses
  whether it is a \<open>ZodOptional\<close> (\<open>IsZodOptional\<close>) and the type inferred from it
  (\<open>z.infer\<close>); an optional schema infers the type of the schema it wraps, or
  \<open>undefined\<close>.
\<close>

datatype zod = ZodType ty | ZodOptional zod

fun zod_infer :: "zod \<Rightarrow> ty" where
  "zod_infer (ZodType t) = t"
| "zod_infer (ZodOptional z) = TUnion [zod_infer z, TUndefined]"

fun IsZodOptional :: "zod \<Rightarrow> bool" where
  "IsZodOptional (ZodOptional z) = True"
| "IsZodOptional (ZodType t) = False"

text \<open>
  An entry of \<open>Changes\<close> is a schema or a function \<open>(prev: any) => R\<close> that returns
  one. \<open>Changes\<close> is an object type, read here through the first entry of each key.
\<close>

datatype change = ChangeSchema zod | ChangeFunction zod

type_synonym changes = "(string \<times> change) list"

type_synonym properties = "(string \<times> bool \<times> ty) list"

fun InferZodType :: "change \<Rightarrow> ty" where
  "InferZodType (ChangeSchema z) = zod_infer z"
| "InferZodType (ChangeFunction R) = zod_infer R"

definition keyof_changes :: "changes \<Rightarrow> string list" where
  "keyof_changes Changes = remdups (map fst Changes)"

definition OptionalKeys :: "changes \<Rightarrow> string list" where
  "OptionalKeys Changes =
     filter (\<lambda>K. case map_of Changes K of
                   Some (ChangeSchema z) \<Rightarrow> IsZodOptional z
                 | Some (ChangeFunction R) \<Rightarrow> IsZodOptional R
                 | None \<Rightarrow> False)
       (keyof_changes Changes)"

definition RequiredKeys :: "changes \<Rightarrow> string list" where
  "RequiredKeys Changes =
     filter (\<lambda>K. K \<notin> set (OptionalKeys Changes)) (keyof_changes Changes)"

text \<open>
  Not part of the source: whether the schema of an entry, or the schema its function
  returns, is optional.
\<close>

definition optional_change :: "change \<Rightarrow> bool" where
  "optional_change c =
     (case c of ChangeSchema z \<Rightarrow> IsZodOptional z | ChangeFunction R \<Rightarrow> IsZodOptional R)"

text \<open>
  \<open>Omit<T, K>\<close> keeps the properties of \<open>T\<close> whose name is not in \<open>K\<close>, with their
  modifiers. \<open>Changes[K]\<close> is never read at a name that is not a key of \<open>Changes\<close>.
\<close>

definition Omit :: "properties \<Rightarrow> string list \<Rightarrow> properties" where
  "Omit T K = filter (\<lambda>(name, p). name \<notin> set K) T"

definition changed_type :: "changes \<Rightarrow> string \<Rightarrow> ty" where
  "changed_type Changes K =
     (case map_of Changes K of Some c \<Rightarrow> InferZodType c | None \<Rightarrow> TNever)"

text \<open>
  The intersection of the three object types, whose property names are disjoint, is
  the object type with the properties of all three. \<open>T extends any ? ... : never\<close>
  distributes over the union \<open>T\<close>, given by its object types.
\<close>

definition merge_member :: "properties \<Rightarrow> changes \<Rightarrow> properties" where
  "merge_member T Changes =
     Omit T (keyof_changes Changes)
     @ map (\<lambda>K. (K, False, changed_type Changes K)) (RequiredKeys Changes)
     @ map (\<lambda>K. (K, True, changed_type Changes K)) (OptionalKeys Changes)"

definition MergeSchemaChanges :: "properties list \<Rightarrow> changes \<Rightarrow> properties list" where
  "MergeSchemaChanges T Changes = map (\<lambda>member. merge_member member Changes) T"

subsection \<open>Stores\<close>

record IndexInfo =
  keyPath :: key_path
  multiEntry :: bool
  unique_index :: bool

record StoreInfo =
  store_value :: ty
  indexes :: "(string \<times> IndexInfo) list"
  store_schema :: zod
  primaryKeyPath :: key_path
  autoIncrement :: bool

type_synonym Schema = "(string \<times> StoreInfo) list"

text \<open>
  The mapped type has one property for every \<open>K in keyof S | StoreName\<close>; its type is
  \<open>NewStoreInfo\<close>, \<open>S[K]\<close> or \<open>never\<close> (\<open>None\<close>). \<open>StoreName\<close> is one string literal.
\<close>

definition UpdateStore :: "Schema \<Rightarrow> string \<Rightarrow> StoreInfo \<Rightarrow> (string \<times> StoreInfo option) list" where
  "UpdateStore S StoreName NewStoreInfo =
     map (\<lambda>K. (K, if K = StoreName then Some NewStoreInfo
                   else if K \<in> set (map fst S) then map_of S K
                   else None))
       (remdups (map fst S @ [StoreName]))"

subsection \<open>The segments of a dotted path\<close>

text \<open>
  Not part of the source: the dot-separated segments of a path, and the type reached
  by following them one after the other, \<open>never\<close> as soon as a segment is not a
  property of the type reached so far.
\<close>

fun segments_from :: "string \<Rightarrow> string \<Rightarrow> string list" where
  "segments_from acc [] = [rev acc]"
| "segments_from acc (c # s) =
     (if c = CHR ''.'' then rev acc # segments_from [] s else segments_from (c # acc) s)"

definition segments :: "string \<Rightarrow> string list" where
  "segments p = segments_from [] p"

fun follow_segments :: "lib \<Rightarrow> ty \<Rightarrow> string list \<Rightarrow> ty" where
  "follow_segments L T [] = T"
| "follow_segments L T (s # ss) =
     (case prop_ty L T s of
        Some t \<Rightarrow> follow_segments L t ss
      | None \<Rightarrow> TNever)"

subsection \<open>One element of a tuple path\<close>

text \<open>
  The check of the source on one element of a tuple path, by itself: the branches of
  \<open>ValidateArrayPath\<close> that decide on \<open>First\<close>.
\<close>

definition element_check :: "lib \<Rightarrow> ty \<Rightarrow> string \<Rightarrow> bool" where
  "element_check L T e =
     (case split_dot e of
        Some (K, Nested) \<Rightarrow>
          (case prop_ty L T K of
             Some TK \<Rightarrow> ValidateStringPath L TK Nested \<noteq> None
           | None \<Rightarrow> False)
      | None \<Rightarrow>
          (case prop_ty L T e of
             Some TE \<Rightarrow> extends_IDBValidKey TE
           | None \<Rightarrow> False))"

text \<open>
  Not part of the source: an element of a tuple path resolves to a valid key when each
  of its dot-separated segments, in turn, is a property of the type reached so far, and
  the type reached at the end is a valid IndexedDB key.
\<close>

fun resolve_segments :: "lib \<Rightarrow> ty \<Rightarrow> string list \<Rightarrow> ty option" where
  "resolve_segments L T [] = Some T"
| "resolve_segments L T (s # ss) =
     (case prop_ty L T s of
        Some t \<Rightarrow> resolve_segments L t ss
      | None \<Rightarrow> None)"

definition element_resolves_to_key :: "lib \<Rightarrow> ty \<Rightarrow> string \<Rightarrow> bool" where
  "element_resolves_to_key L T e =
     (case resolve_segments L T (segments e) of
        Some t \<Rightarrow> extends_IDBValidKey t
      | None \<Rightarrow> False)"

section \<open>Properties of the numeric comparison\<close>

lemma less_10_cases:
  assumes "(k::nat) < 10"
  shows "k \<in> {0, 1, 2, 3, 4} \<or> k \<in> {5, 6, 7, 8, 9}"
  using assms by auto

lemma DigitString_nth:
  "DigitString ! 0 = CHR ''0''" "DigitString ! 1 = CHR ''1''" "DigitString ! 2 = CHR ''2''"
  "DigitString ! 3 = CHR ''3''" "DigitString ! 4 = CHR ''4''" "DigitString ! 5 = CHR ''5''"
  "DigitString ! 6 = CHR ''6''" "DigitString ! 7 = CHR ''7''" "DigitString ! 8 = CHR ''8''"
  "DigitString ! 9 = CHR ''9''"
  by (simp_all add: DigitString_def numeral_eq_Suc)

lemma digit_val_nth: "n < 10 \<Longrightarrow> digit_val (DigitString ! n) = n"
  by (drule less_10_cases) (auto simp: DigitString_nth, simp_all add: digit_val_def DigitString_def)

lemma is_Digit_nth: "n < 10 \<Longrightarrow> is_Digit (DigitString ! n)"
  by (drule less_10_cases) (auto simp: DigitString_nth, simp_all add: is_Digit_def DigitString_def)

lemma is_Digit_cases: "is_Digit c \<Longrightarrow> \<exists>n<10. c = DigitString ! n"
proof -
  assume "is_Digit c"
  then obtain n where "n < length DigitString" "DigitString ! n = c"
    unfolding is_Digit_def by (auto simp: in_set_conv_nth)
  moreover have "length DigitString = 10" by (simp add: DigitString_def)
  ultimately show ?thesis by auto
qed

lemma DigitGreaterThan_nth:
  "m < 10 \<Longrightarrow> n < 10 \<Longrightarrow> DigitGreaterThan (DigitString ! m) (DigitString ! n) = (n < m)"
  apply (drule less_10_cases)
  apply (drule less_10_cases)
  apply (simp only: insert_iff empty_iff)
  apply (elim disjE)
  apply (simp_all add: DigitString_nth)
  apply (simp_all add: DigitGreaterThan_def DigitString_def)
  done


lemma dec_nonempty: "dec n \<noteq> []"
  by (subst dec.simps) simp

lemma dec_digits: "c \<in> set (dec n) \<Longrightarrow> is_Digit c"
proof (induction n arbitrary: c rule: dec.induct)
  case (1 n)
  show ?case
  proof (cases "n < 10")
    case True
    with "1.prems" show ?thesis
      by (subst (asm) dec.simps) (simp add: is_Digit_nth)
  next
    case False
    with "1.prems" have "c \<in> set (dec (n div 10)) \<or> c = DigitString ! (n mod 10)"
      by (subst (asm) dec.simps) auto
    with False "1.IH" show ?thesis
      by (auto simp: is_Digit_nth)
  qed
qed

lemma val_snoc: "val (s @ [c]) = 10 * val s + digit_val c"
  by (induction s) (simp_all add: algebra_simps)

lemma val_dec: "val (dec n) = n"
proof (induction n rule: dec.induct)
  case (1 n)
  show ?case
  proof (cases "n < 10")
    case True
    then show ?thesis by (subst dec.simps) (simp add: digit_val_nth)
  next
    case False
    with "1.IH" have "val (dec (n div 10)) = n div 10" by simp
    with False show ?thesis
      by (subst dec.simps) (simp add: val_snoc digit_val_nth)
  qed
qed





lemma IsLonger_iff: "IsLonger A B = (length B < length A)"
  by (induction A B rule: IsLonger.induct) simp_all




lemma CompareSameLengthPositive_refl: "CompareSameLengthPositive s s = 0"
  by (induction s) simp_all

lemma PositiveStringGreaterThan_irrefl: "\<not> PositiveStringGreaterThan s s"
  by (simp add: PositiveStringGreaterThan_def IsLonger_iff CompareSameLengthPositive_refl)

lemma is_Digit_not_minus: "is_Digit c \<Longrightarrow> c \<noteq> CHR ''-''"
  by (auto simp: is_Digit_def DigitString_def)

lemma dec_Cons: "\<exists>c s. dec n = c # s \<and> c \<noteq> CHR ''-''"
proof -
  obtain c s where cs: "dec n = c # s" using dec_nonempty [of n] by (cases "dec n") auto
  then have "is_Digit c" using dec_digits [of c n] by simp
  with cs show ?thesis by (auto dest: is_Digit_not_minus)
qed




lemma IsGreaterThan_Lit: "IsGreaterThan (Lit a) (Lit b) = CompareFinite a b"
  by (simp add: IsGreaterThan_def IsEqual_def typeof_Infinity_def typeof_NegativeInfinity_def)

lemma dec_numeral [simp]:
  "dec (numeral k) =
     (if (numeral k :: nat) < 10 then [DigitString ! numeral k]
      else dec (numeral k div 10) @ [DigitString ! (numeral k mod 10)])"
  by (rule dec.simps)

lemma dec_0 [simp]: "dec 0 = ''0''"
  by (subst dec.simps) (simp add: DigitString_def)

lemma dec_1 [simp]: "dec 1 = ''1''"
  by (subst dec.simps) (simp add: DigitString_def)

lemma dec_Suc_0 [simp]: "dec (Suc 0) = ''1''"
  by (subst dec.simps) (simp add: DigitString_def)



text \<open>
  The comparison of two digit strings: the longer one is greater, and at equal length
  the first differing digit decides, by its position in the digit string.
\<close>

lemma PositiveStringGreaterThan_structure:
  "PositiveStringGreaterThan A B =
     (length B < length A \<or> length A = length B \<and> CompareSameLengthPositive A B = 1)"
  by (auto simp: PositiveStringGreaterThan_def IsLonger_iff)

lemma CompareSameLengthPositive_first_difference:
  assumes "\<forall>c\<in>set (p @ [x, y]). is_Digit c" and "x \<noteq> y"
  shows "CompareSameLengthPositive (p @ x # A) (p @ y # B) =
     (if digit_val y < digit_val x then 1 else - 1)"
  using assms
proof (induction p)
  case Nil
  then obtain m n where "m < 10" "x = DigitString ! m" "n < 10" "y = DigitString ! n"
    using is_Digit_cases [of x] is_Digit_cases [of y] by auto
  with Nil show ?case
    by (simp add: DigitGreaterThan_nth digit_val_nth is_Digit_nth)
next
  case (Cons c p)
  then show ?case by simp
qed

text \<open>The text of an integer denotes the integer.\<close>

lemma split_at_absent: "c \<notin> set s \<Longrightarrow> split_at c s = (s, None)"
  by (induction s) auto

lemma digits_value_dec: "digits_value (dec n) = Some n"
  using dec_digits [of _ n] dec_nonempty [of n]
  by (simp add: digits_value_def val_dec list_all_iff)

lemma unsigned_value_dec: "unsigned_value (dec n) = Some (of_nat n)"
proof -
  have "CHR ''e'' \<notin> set (dec n)" "CHR ''.'' \<notin> set (dec n)"
    using dec_digits [of _ n] by (auto simp: is_Digit_def DigitString_def)
  then show ?thesis
    by (simp add: unsigned_value_def split_at_absent digits_value_dec)
qed

lemma text_value_int_text: "text_value (int_text n) = Some (of_int n)"
proof (cases "n < 0")
  case True
  then show ?thesis
    by (simp add: text_value_def int_text_def unsigned_value_dec)
next
  case False
  obtain c s where cs: "dec (nat n) = c # s" "c \<noteq> CHR ''-''"
    using dec_Cons [of "nat n"] by blast
  have "unsigned_value (c # s) = Some (of_nat (nat n))"
    using unsigned_value_dec [of "nat n"] cs by simp
  with False cs show ?thesis
    by (simp add: text_value_def int_text_def)
qed




text \<open>The comparison is a strict order on all template strings.\<close>

lemma DigitGreaterThan_asym:
  assumes "is_Digit a" and "is_Digit b" and "DigitGreaterThan a b"
  shows "\<not> DigitGreaterThan b a"
proof -
  obtain m n where "m < 10" "a = DigitString ! m" "n < 10" "b = DigitString ! n"
    using assms is_Digit_cases [of a] is_Digit_cases [of b] by auto
  with assms(3) show ?thesis by (simp add: DigitGreaterThan_nth)
qed

lemma DigitGreaterThan_trans:
  assumes "is_Digit a" and "is_Digit b" and "is_Digit c"
    and "DigitGreaterThan a b" and "DigitGreaterThan b c"
  shows "DigitGreaterThan a c"
proof -
  obtain m n k where "m < 10" "a = DigitString ! m" "n < 10" "b = DigitString ! n"
    "k < 10" "c = DigitString ! k"
    using assms is_Digit_cases [of a] is_Digit_cases [of b] is_Digit_cases [of c] by auto
  with assms(4,5) show ?thesis by (simp add: DigitGreaterThan_nth)
qed

lemma DigitGreaterThan_neq: "DigitGreaterThan a b \<Longrightarrow> a \<noteq> b"
  by (auto simp: DigitGreaterThan_def)

lemma CompareSameLengthPositive_Cons:
  "(CompareSameLengthPositive (a # A) (b # B) = 1) =
     (is_Digit a \<and> is_Digit b \<and>
      (if a = b then CompareSameLengthPositive A B = 1 else DigitGreaterThan a b))"
  by simp

lemma CompareSameLengthPositive_asym:
  "CompareSameLengthPositive A B = 1 \<Longrightarrow> CompareSameLengthPositive B A \<noteq> 1"
proof (induction A B rule: CompareSameLengthPositive.induct)
  case (1 DA RestA DB RestB)
  then show ?case
    by (auto simp: CompareSameLengthPositive_Cons dest: DigitGreaterThan_asym
        split: if_splits simp del: CompareSameLengthPositive.simps)
qed simp_all

lemma CompareSameLengthPositive_trans:
  "CompareSameLengthPositive A B = 1 \<Longrightarrow> CompareSameLengthPositive B C = 1 \<Longrightarrow>
   CompareSameLengthPositive A C = 1"
proof (induction A arbitrary: B C)
  case Nil
  then show ?case by simp
next
  case (Cons a A)
  from Cons.prems(1) obtain b B' where B: "B = b # B'" by (cases B) auto
  from Cons.prems(2) B obtain c C' where C: "C = c # C'" by (cases C) auto
  have ab: "is_Digit a" "is_Digit b"
    and ab_eq: "a = b \<Longrightarrow> CompareSameLengthPositive A B' = 1"
    and ab_ne: "a \<noteq> b \<Longrightarrow> DigitGreaterThan a b"
    using Cons.prems(1) B by (auto split: if_splits)
  have bc: "is_Digit c"
    and bc_eq: "b = c \<Longrightarrow> CompareSameLengthPositive B' C' = 1"
    and bc_ne: "b \<noteq> c \<Longrightarrow> DigitGreaterThan b c"
    using Cons.prems(2) B C by (auto split: if_splits)
  have eq: "a = c \<Longrightarrow> CompareSameLengthPositive A C' = 1"
  proof -
    assume ac: "a = c"
    show ?thesis
    proof (cases "a = b")
      case True
      with ac ab_eq bc_eq Cons.IH [of B' C'] show ?thesis by simp
    next
      case False
      with ac have "DigitGreaterThan a b" "DigitGreaterThan b a"
        using ab_ne bc_ne by auto
      with ab show ?thesis using DigitGreaterThan_asym by blast
    qed
  qed
  have ne: "a \<noteq> c \<Longrightarrow> DigitGreaterThan a c"
  proof -
    assume ac: "a \<noteq> c"
    show ?thesis
    proof (cases "a = b")
      case True
      with ac bc_ne show ?thesis by auto
    next
      case False
      show ?thesis
      proof (cases "b = c")
        case True
        with False ab_ne show ?thesis by auto
      next
        case bc_diff: False
        with False ab bc ab_ne bc_ne show ?thesis
          using DigitGreaterThan_trans by blast
      qed
    qed
  qed
  show ?case
    using ab bc eq ne C by (cases "a = c") simp_all
qed

lemma PositiveStringGreaterThan_asym:
  "PositiveStringGreaterThan A B \<Longrightarrow> \<not> PositiveStringGreaterThan B A"
  by (auto simp: PositiveStringGreaterThan_structure dest: CompareSameLengthPositive_asym)

lemma PositiveStringGreaterThan_trans:
  "PositiveStringGreaterThan A B \<Longrightarrow> PositiveStringGreaterThan B C \<Longrightarrow>
   PositiveStringGreaterThan A C"
  by (auto simp: PositiveStringGreaterThan_structure dest: CompareSameLengthPositive_trans)

lemma CompareFinite_irrefl: "\<not> CompareFinite A A"
  by (simp add: CompareFinite_def PositiveStringGreaterThan_irrefl)

lemma CompareFinite_asym: "CompareFinite A B \<Longrightarrow> \<not> CompareFinite B A"
  by (auto simp: CompareFinite_def dest: PositiveStringGreaterThan_asym split: if_splits)

lemma CompareFinite_trans: "CompareFinite A B \<Longrightarrow> CompareFinite B C \<Longrightarrow> CompareFinite A C"
  by (auto simp: CompareFinite_def dest: PositiveStringGreaterThan_trans split: if_splits)

lemma IsGreaterThan_NumberTy:
  "IsGreaterThan NumberTy B = (B \<noteq> NumberTy)" "IsGreaterThan A NumberTy = False"
  by (auto simp: IsGreaterThan_def IsEqual_def typeof_Infinity_def typeof_NegativeInfinity_def)

lemma IsGreaterThan_irrefl: "\<not> IsGreaterThan A A"
  by (cases A) (simp_all add: IsGreaterThan_Lit IsGreaterThan_NumberTy CompareFinite_irrefl)

lemma IsGreaterThan_asym: "IsGreaterThan A B \<Longrightarrow> \<not> IsGreaterThan B A"
  by (cases A; cases B)
    (auto simp: IsGreaterThan_Lit IsGreaterThan_NumberTy dest: CompareFinite_asym)

lemma IsGreaterThan_trans: "IsGreaterThan A B \<Longrightarrow> IsGreaterThan B C \<Longrightarrow> IsGreaterThan A C"
  by (cases A; cases B; cases C)
    (auto simp: IsGreaterThan_Lit IsGreaterThan_NumberTy dest: CompareFinite_trans)

text \<open>
  Claim C9: \<open>IsGreaterThan\<close> is a strict order on the number types: it is irreflexive
  (\<open>IsGreaterThan<A, A>\<close> is false), asymmetric and transitive; \<open>LessThan<A, B>\<close> is
  \<open>IsGreaterThan<B, A>\<close>; and for number literals \<open>A\<close> and \<open>B\<close>,
  \<open>GreaterThanOrEqual<A, B>\<close> (\<open>LessThanOrEqual<A, B>\<close>) is true exactly when \<open>A\<close> equals
  \<open>B\<close> or \<open>IsGreaterThan<A, B>\<close> (\<open>LessThan<A, B>\<close>) is true.
\<close>

theorem comparison_family:
  "\<not> IsGreaterThan A A
   \<and> (IsGreaterThan A B \<longrightarrow> \<not> IsGreaterThan B A)
   \<and> (IsGreaterThan A B \<and> IsGreaterThan B C \<longrightarrow> IsGreaterThan A C)
   \<and> LessThan A B = IsGreaterThan B A
   \<and> GreaterThanOrEqual (Lit a) (Lit b) = (a = b \<or> IsGreaterThan (Lit a) (Lit b))
   \<and> LessThanOrEqual (Lit a) (Lit b) = (a = b \<or> LessThan (Lit a) (Lit b))"
  using IsGreaterThan_irrefl [of A] IsGreaterThan_asym [of A B] IsGreaterThan_trans [of A B C]
  by (auto simp: LessThan_def GreaterThanOrEqual_def LessThanOrEqual_def num_extends_def)

theorem comparison_family_witness:
  "IsGreaterThan (Lit ''5'') (Lit ''3'') \<and> IsGreaterThan (Lit ''3'') (Lit ''-1.5'')
   \<and> IsGreaterThan (Lit ''5'') (Lit ''-1.5'') \<and> \<not> IsGreaterThan (Lit ''3'') (Lit ''5'')
   \<and> GreaterThanOrEqual (Lit ''5'') (Lit ''5'') \<and> LessThanOrEqual (Lit ''3'') (Lit ''5'')"
proof -
  have 1: "IsGreaterThan (Lit ''5'') (Lit ''3'')"
    by (simp add: IsGreaterThan_Lit CompareFinite_def IsNegative_def AbsoluteString_def
        PositiveStringGreaterThan_def is_Digit_def DigitGreaterThan_def DigitString_def)
  have 2: "IsGreaterThan (Lit ''3'') (Lit ''-1.5'')"
    by (simp add: IsGreaterThan_Lit CompareFinite_def IsNegative_def)
  show ?thesis
    using 1 2 comparison_family [of "Lit ''5''" "Lit ''3''" "Lit ''-1.5''" "''5''" "''5''"]
      comparison_family [of "Lit ''5''" "Lit ''3''" "Lit ''-1.5''" "''3''" "''5''"]
    by (simp add: LessThan_def)
qed

section \<open>Properties of the version validation\<close>





section \<open>Properties of key path validation and resolution\<close>

lemma ValidateStringPath_empty:
  "ValidateStringPath L T [] = (if list_ex extends_IDBValidKey (members T) then Some [] else None)"
  by (subst ValidateStringPath.simps) simp

lemma ValidateStringPath_empty_single:
  "members T = [T] \<Longrightarrow>
   ValidateStringPath L T [] = (if extends_IDBValidKey T then Some [] else None)"
  by (simp add: ValidateStringPath_empty)

lemma ValidateStringPath_single:
  "p \<noteq> [] \<Longrightarrow> split_dot p = None \<Longrightarrow>
   ValidateStringPath L T p =
     (case prop_ty L T p of
        Some t \<Rightarrow> if extends_IDBValidKey t then Some p else None
      | None \<Rightarrow> None)"
  by (subst ValidateStringPath.simps) simp

lemma ValidateStringPath_dotted:
  "split_dot p = Some (First, Rest) \<Longrightarrow>
   ValidateStringPath L T p =
     (case prop_ty L T First of
        Some t \<Rightarrow> if ValidateStringPath L t Rest = None then None else Some p
      | None \<Rightarrow> None)"
  by (subst ValidateStringPath.simps) auto

lemma ValidateStringPath_result: "ValidateStringPath L T p = Some q \<Longrightarrow> q = p"
  by (subst (asm) ValidateStringPath.simps) (auto split: if_splits option.splits)

lemma extends_IDBValidKey_members:
  "extends_IDBValidKey T = list_all extends_IDBValidKey (members T)"
  by (induction T rule: members.induct) (simp_all add: list_all_iff)

lemma ValidateKeyPath_undefined: "ValidateKeyPath L T PathUndefined = Some PathUndefined"
  by (simp add: ValidateKeyPath_def)

text \<open>
  Claim C3 at the value type \<open>string | boolean\<close> and the empty path: the value type is
  not a valid key (\<open>boolean\<close> is none), and the path is returned, not \<open>never\<close>. The
  check of the empty path distributes over the union and one valid constituent is
  enough, while the check of a property's type does not distribute.
\<close>

theorem ValidateKeyPath_empty_union:
  "ValidateKeyPath L (TUnion [TString, TBoolean]) (PathString '''') = Some (PathString '''')
   \<and> \<not> extends_IDBValidKey (TUnion [TString, TBoolean])"
  by (simp add: ValidateKeyPath_def ValidateStringPath_empty)

text \<open>
  Claim C4 with the acceptance condition of the source: with \<open>AutoIncrement\<close> true, a
  string path is returned exactly when \<open>number\<close> is assignable to the type resolved
  at the path or that type is assignable to \<open>number\<close>; an undefined path is returned;
  a tuple or array path is \<open>never\<close>. With \<open>AutoIncrement\<close> false or undefined every
  path is returned.
\<close>

theorem ValidateAutoIncrementKey_cases:
  "ValidateAutoIncrementKey L T (PathString p) (Some True) =
     (if number_extends (ResolveSingleKeyPath L T p) \<or> extends_number (ResolveSingleKeyPath L T p)
      then Some (PathString p) else None)
   \<and> ValidateAutoIncrementKey L T PathUndefined (Some True) = Some PathUndefined
   \<and> ValidateAutoIncrementKey L T (PathTuple ps) (Some True) = None
   \<and> ValidateAutoIncrementKey L T PathStringArray (Some True) = None
   \<and> ValidateAutoIncrementKey L T Path (Some False) = Some Path
   \<and> ValidateAutoIncrementKey L T Path None = Some Path"
  by (simp add: ValidateAutoIncrementKey_def)

lemma Resolve_id: "ResolveSingleKeyPath L (TObject [(''id'', False, t)]) ''id'' = t"
  by (subst ResolveSingleKeyPath.simps) simp

text \<open>
  A key of type \<open>number | string\<close> is accepted: \<open>number extends number | string\<close>
  holds, and the type is neither \<open>number\<close> nor a subtype of it.
\<close>

theorem ValidateAutoIncrementKey_supertype_counterexample:
  "ValidateAutoIncrementKey sample_lib (TObject [(''id'', False, TUnion [TNumber, TString])])
      (PathString ''id'') (Some True) = Some (PathString ''id'')
   \<and> ResolveKeyPath sample_lib (TObject [(''id'', False, TUnion [TNumber, TString])]) (PathString ''id'')
        = TUnion [TNumber, TString]
   \<and> TUnion [TNumber, TString] \<noteq> TNumber
   \<and> extends_number (TUnion [TNumber, TString]) = False"
  by (simp add: ValidateAutoIncrementKey_def ResolveKeyPath_def Resolve_id)

lemma Resolve_tags: "ResolveSingleKeyPath L (TObject [(''tags'', False, t)]) ''tags'' = t"
  by (subst ResolveSingleKeyPath.simps) simp

text \<open>
  Claim C5 at an array of \<open>string | boolean\<close>: the element type is not a valid key, and
  the result is \<open>boolean\<close> (\<open>true | false\<close>), not \<open>false\<close>. The check of the inferred
  element type distributes over its constituents.
\<close>

theorem ValidateMultiEntryIndex_mixed_elements:
  "ValidateMultiEntryIndex L (TObject [(''tags'', False, TArray (TUnion [TString, TBoolean]))])
      ''tags'' True = {True, False}
   \<and> \<not> extends_IDBValidKey (TUnion [TString, TBoolean])"
  by (auto simp: ValidateMultiEntryIndex_def ResolveKeyPath_def Resolve_tags infer_element_def)

text \<open>
  Where the element type is not a union the result is one boolean.
\<close>

lemma ValidateMultiEntryIndex_not_multiEntry: "ValidateMultiEntryIndex L V p False = {True}"
  by (simp add: ValidateMultiEntryIndex_def)

lemma ValidateMultiEntryIndex_not_array:
  "infer_element (ResolveKeyPath L V (PathString p)) = None \<Longrightarrow>
   ValidateMultiEntryIndex L V p True = {False}"
  by (simp add: ValidateMultiEntryIndex_def)

lemma ValidateMultiEntryIndex_array:
  "ResolveKeyPath L V (PathString p) = TArray E \<Longrightarrow> members E = [E] \<Longrightarrow>
   ValidateMultiEntryIndex L V p True = {extends_IDBValidKey E}"
  by (simp add: ValidateMultiEntryIndex_def infer_element_def)

lemma segments_from_split:
  "segments_from acc p =
     (case split_dot p of
        None \<Rightarrow> [rev acc @ p]
      | Some (First, Rest) \<Rightarrow> (rev acc @ First) # segments_from [] Rest)"
proof (induction p arbitrary: acc)
  case Nil
  then show ?case by simp
next
  case (Cons c p)
  show ?case
  proof (cases "c = CHR ''.''")
    case True
    then show ?thesis by simp
  next
    case False
    then show ?thesis
      by (simp add: Cons.IH [of "c # acc"] split: option.split)
  qed
qed

lemma segments_split:
  "segments p = (case split_dot p of None \<Rightarrow> [p] | Some (First, Rest) \<Rightarrow> First # segments Rest)"
  unfolding segments_def by (subst segments_from_split) (simp split: option.split)

lemma ResolveSingleKeyPath_follow:
  "ResolveSingleKeyPath L T p = follow_segments L T (segments p)"
proof (induction L T p rule: ResolveSingleKeyPath.induct)
  case (1 L T Path)
  show ?case
  proof (cases "split_dot Path")
    case None
    have "ResolveSingleKeyPath L T Path = (case prop_ty L T Path of Some t \<Rightarrow> t | None \<Rightarrow> TNever)"
      using None by (subst ResolveSingleKeyPath.simps) simp
    moreover have "segments Path = [Path]"
      using None by (subst segments_split) simp
    ultimately show ?thesis by (simp split: option.split)
  next
    case (Some fr)
    obtain First Rest where fr: "fr = (First, Rest)" by (cases fr)
    have r: "ResolveSingleKeyPath L T Path =
        (case prop_ty L T First of Some t \<Rightarrow> ResolveSingleKeyPath L t Rest | None \<Rightarrow> TNever)"
      using Some fr by (subst ResolveSingleKeyPath.simps) simp
    have s: "segments Path = First # segments Rest"
      using Some fr by (subst segments_split) simp
    show ?thesis
    proof (cases "prop_ty L T First")
      case None
      then show ?thesis by (simp add: r s)
    next
      case (Some TFirst)
      have "ResolveSingleKeyPath L TFirst Rest = follow_segments L TFirst (segments Rest)"
        using "1.IH" \<open>split_dot Path = Some fr\<close> fr Some by blast
      with Some show ?thesis by (simp add: r s)
    qed
  qed
qed

lemma ResolveArrayKeyPath_map:
  "ResolveArrayKeyPath L T (PathTuple ps) = TTuple (map (ResolveSingleKeyPath L T) ps)"
  by (induction ps) simp_all

text \<open>
  Claim C6: \<open>ResolveKeyPath<T, Path>\<close> is \<open>IDBValidKey\<close> when \<open>Path\<close> is \<open>undefined\<close>;
  for a string path it is the type reached by following the dot-separated segments of
  the path through \<open>T\<close>, \<open>never\<close> if a segment is not a property of the type reached
  so far; for a tuple of string paths it is the tuple of the types the paths resolve to,
  in the order of the paths.
\<close>

theorem ResolveKeyPath_cases:
  "ResolveKeyPath L T PathUndefined = TIDBValidKey
   \<and> ResolveKeyPath L T (PathString p) = follow_segments L T (segments p)
   \<and> ResolveKeyPath L T (PathTuple ps) = TTuple (map (\<lambda>p. ResolveKeyPath L T (PathString p)) ps)"
  by (simp add: ResolveKeyPath_def ResolveSingleKeyPath_follow ResolveArrayKeyPath_map)

lemma ValidateArrayPath_Cons:
  "ValidateArrayPath L T (PathTuple (p # ps)) OriginalT =
     (if element_check L T p then
        (if ps = [] then Some (PathTuple (p # ps))
         else if ValidateArrayPath L OriginalT (PathTuple ps) OriginalT = None then None
         else Some (PathTuple (p # ps)))
      else None)"
  unfolding element_check_def
  by (subst ValidateArrayPath.simps(1)) (auto split: option.split)

lemma ValidateArrayPath_elements:
  "ValidateArrayPath L T (PathTuple (p # ps)) T =
     (if list_all (element_check L T) (p # ps) then Some (PathTuple (p # ps)) else None)"
proof (induction ps arbitrary: p)
  case Nil
  show ?case by (simp add: ValidateArrayPath_Cons)
next
  case (Cons q qs)
  show ?case
    by (subst ValidateArrayPath_Cons) (simp add: Cons.IH)
qed

text \<open>
  The check on an element against the segments of the element, followed one by one:
  they agree on every element that does not end in a dot.
\<close>

lemma split_dot_append: "split_dot p = Some (First, Rest) \<Longrightarrow> p = First @ CHR ''.'' # Rest"
  by (induction p arbitrary: First) (auto split: if_splits)

lemma ValidateStringPath_resolves:
  "p \<noteq> [] \<Longrightarrow> last p \<noteq> CHR ''.'' \<Longrightarrow>
   (ValidateStringPath L T p \<noteq> None) =
     (case resolve_segments L T (segments p) of
        Some t \<Rightarrow> extends_IDBValidKey t
      | None \<Rightarrow> False)"
proof (induction L T p rule: ValidateStringPath.induct)
  case (1 L T Path)
  show ?case
  proof (cases "split_dot Path")
    case None
    with "1.prems" have "ValidateStringPath L T Path =
        (case prop_ty L T Path of
           Some t \<Rightarrow> if extends_IDBValidKey t then Some Path else None
         | None \<Rightarrow> None)"
      by (simp add: ValidateStringPath_single)
    moreover have "segments Path = [Path]"
      using None by (subst segments_split) simp
    ultimately show ?thesis by (simp split: option.split)
  next
    case (Some fr)
    obtain First Rest where fr: "fr = (First, Rest)" by (cases fr)
    with Some have path: "Path = First @ CHR ''.'' # Rest"
      by (simp add: split_dot_append)
    with "1.prems" have rest: "Rest \<noteq> []" "last Rest \<noteq> CHR ''.''"
      by (auto split: if_splits)
    have v: "ValidateStringPath L T Path =
        (case prop_ty L T First of
           Some t \<Rightarrow> if ValidateStringPath L t Rest = None then None else Some Path
         | None \<Rightarrow> None)"
      using Some fr by (simp add: ValidateStringPath_dotted)
    have s: "segments Path = First # segments Rest"
      using Some fr by (subst segments_split) simp
    show ?thesis
    proof (cases "prop_ty L T First")
      case None
      then show ?thesis by (simp add: v s)
    next
      case (Some TFirst)
      have "(ValidateStringPath L TFirst Rest \<noteq> None) =
          (case resolve_segments L TFirst (segments Rest) of
             Some t \<Rightarrow> extends_IDBValidKey t
           | None \<Rightarrow> False)"
        using "1.IH" "1.prems"(1) \<open>split_dot Path = Some fr\<close> fr Some rest by blast
      with Some show ?thesis by (auto simp: v s split: option.splits)
    qed
  qed
qed

lemma element_check_resolves:
  assumes "e = [] \<or> last e \<noteq> CHR ''.''"
  shows "element_check L T e = element_resolves_to_key L T e"
proof (cases "split_dot e")
  case None
  then have "segments e = [e]" by (subst segments_split) simp
  with None show ?thesis
    by (simp add: element_check_def element_resolves_to_key_def split: option.split)
next
  case (Some kn)
  obtain K Nested where kn: "kn = (K, Nested)" by (cases kn)
  with Some have e: "e = K @ CHR ''.'' # Nested" by (simp add: split_dot_append)
  with assms have nested: "Nested \<noteq> []" "last Nested \<noteq> CHR ''.''"
    by (auto split: if_splits)
  have s: "segments e = K # segments Nested"
    using Some kn by (subst segments_split) simp
  show ?thesis
  proof (cases "prop_ty L T K")
    case None
    with Some kn show ?thesis
      by (simp add: element_check_def element_resolves_to_key_def s)
  next
    case (Some TK)
    with \<open>split_dot e = Some kn\<close> kn ValidateStringPath_resolves [OF nested, of L TK]
    show ?thesis
      by (auto simp: element_check_def element_resolves_to_key_def s split: option.splits)
  qed
qed

lemma ValidateKeyPath_tuple_elements:
  assumes "\<forall>e\<in>set (p # ps). e = [] \<or> last e \<noteq> CHR ''.''"
  shows "ValidateKeyPath L T (PathTuple (p # ps)) =
     (if list_all (element_resolves_to_key L T) (p # ps) then Some (PathTuple (p # ps))
      else None)"
proof -
  have "list_all (element_check L T) (p # ps) = list_all (element_resolves_to_key L T) (p # ps)"
    using assms by (auto simp: list_all_iff element_check_resolves)
  then show ?thesis
    by (simp only: ValidateKeyPath_def key_path.case ValidateArrayPath_elements)
qed

lemma ValidateKeyPath_tuple_example:
  "ValidateKeyPath sample_lib
     (TObject [(''id'', False, TString), (''user'', False, TObject [(''name'', False, TString)])])
     (PathTuple [''id'', ''user.name''])
   = Some (PathTuple [''id'', ''user.name''])"
proof -
  have "segments ''id'' = [''id'']" "segments ''user.name'' = [''user'', ''name'']"
    by (simp_all add: segments_def)
  then show ?thesis
    by (subst ValidateKeyPath_tuple_elements) (simp_all add: element_resolves_to_key_def)
qed

lemma ValidateStringPath_trailing_dot:
  "ValidateStringPath L (TUnion [TString, TBoolean]) [] = Some []"
  by (simp add: ValidateStringPath_empty)

text \<open>
  Claim C10: \<open>ValidateKeyPath<T, Path>\<close> returns a path typed as the widened
  \<open>readonly string[]\<close> unchanged, whatever \<open>T\<close> is, and the empty tuple as well. The
  elements of a literal tuple are checked one by one, but not always as the claim
  describes the check: on \<open>{ v: string | boolean }\<close> the tuple \<open>['v.']\<close> is returned,
  although its element does not resolve to a valid key (its last segment, the empty
  one, is no property, and \<open>string | boolean\<close> is no valid key).
\<close>

theorem ValidateKeyPath_array_paths:
  "ValidateKeyPath L T PathStringArray = Some PathStringArray
   \<and> ValidateKeyPath L T (PathTuple []) = Some (PathTuple [])
   \<and> ValidateKeyPath sample_lib (TObject [(''v'', False, TUnion [TString, TBoolean])])
        (PathTuple [''v.'']) = Some (PathTuple [''v.''])
   \<and> \<not> element_resolves_to_key sample_lib
        (TObject [(''v'', False, TUnion [TString, TBoolean])]) ''v.''
   \<and> \<not> extends_IDBValidKey (TUnion [TString, TBoolean])"
proof -
  have "segments ''v.'' = [''v'', []]" by (simp add: segments_def)
  then show ?thesis
    by (simp add: ValidateKeyPath_def ValidateArrayPath.simps(2,3) ValidateArrayPath_elements
        element_check_def ValidateStringPath_trailing_dot element_resolves_to_key_def)
qed

section \<open>Properties of schema alteration and store update\<close>

lemma UpdateStore_keys: "map fst (UpdateStore S n new) = remdups (map fst S @ [n])"
  by (simp add: UpdateStore_def comp_def)

lemma map_of_keyed:
  "map_of (map (\<lambda>K. (K, f K)) ks) K = (if K \<in> set ks then Some (f K) else None)"
  by (induction ks) auto

lemma UpdateStore_lookup:
  "map_of (UpdateStore S n new) K =
     (if K = n then Some (Some new)
      else if K \<in> set (map fst S) then Some (map_of S K) else None)"
  unfolding UpdateStore_def by (simp add: map_of_keyed)

text \<open>
  Claim C8: the keys of \<open>UpdateStore<S, StoreName, NewStoreInfo>\<close> are \<open>StoreName\<close> and
  the keys of \<open>S\<close>, each once; the entry at \<open>StoreName\<close> is \<open>NewStoreInfo\<close>; the entry
  at every other key \<open>K\<close> of \<open>S\<close> is \<open>S[K]\<close>; and there is no entry at any other key.
  This holds for every \<open>S\<close>, the empty schema included.
\<close>

theorem UpdateStore_frame:
  "set (map fst (UpdateStore S StoreName NewStoreInfo)) = insert StoreName (set (map fst S))
   \<and> distinct (map fst (UpdateStore S StoreName NewStoreInfo))
   \<and> map_of (UpdateStore S StoreName NewStoreInfo) K =
       (if K = StoreName then Some (Some NewStoreInfo) else map_option Some (map_of S K))"
proof -
  have "(K \<in> set (map fst S)) = (map_of S K \<noteq> None)"
    by (simp add: map_of_eq_None_iff)
  then have "map_of (UpdateStore S StoreName NewStoreInfo) K =
       (if K = StoreName then Some (Some NewStoreInfo) else map_option Some (map_of S K))"
    by (cases "map_of S K") (simp_all add: UpdateStore_lookup)
  then show ?thesis
    by (simp add: UpdateStore_keys)
qed

theorem UpdateStore_frame_witness:
  "map_of (UpdateStore
       [(''users'', \<lparr>store_value = TString, indexes = [], store_schema = ZodType TString,
                     primaryKeyPath = PathUndefined, autoIncrement = False\<rparr>)]
       ''posts''
       \<lparr>store_value = TNumber, indexes = [], store_schema = ZodType TNumber,
        primaryKeyPath = PathUndefined, autoIncrement = True\<rparr>) ''users''
     = Some (Some \<lparr>store_value = TString, indexes = [], store_schema = ZodType TString,
                     primaryKeyPath = PathUndefined, autoIncrement = False\<rparr>)
   \<and> map_of (UpdateStore [] ''users''
       \<lparr>store_value = TString, indexes = [], store_schema = ZodType TString,
        primaryKeyPath = PathUndefined, autoIncrement = False\<rparr>) ''users''
     = Some (Some \<lparr>store_value = TString, indexes = [], store_schema = ZodType TString,
                     primaryKeyPath = PathUndefined, autoIncrement = False\<rparr>)"
  using UpdateStore_frame [of
      "[(''users'', \<lparr>store_value = TString, indexes = [], store_schema = ZodType TString,
                     primaryKeyPath = PathUndefined, autoIncrement = False\<rparr>)]"
      "''posts''"
      "\<lparr>store_value = TNumber, indexes = [], store_schema = ZodType TNumber,
        primaryKeyPath = PathUndefined, autoIncrement = True\<rparr>" "''users''"]
    UpdateStore_frame [of "[]" "''users''"
      "\<lparr>store_value = TString, indexes = [], store_schema = ZodType TString,
        primaryKeyPath = PathUndefined, autoIncrement = False\<rparr>" "''users''"]
  by simp

lemma map_of_Omit: "map_of (Omit T Ks) K = (if K \<in> set Ks then None else map_of T K)"
  by (induction T) (auto simp: Omit_def)

lemma keyof_changes_iff: "K \<in> set (keyof_changes Changes) \<longleftrightarrow> map_of Changes K \<noteq> None"
  by (simp add: keyof_changes_def map_of_eq_None_iff)

lemma OptionalKeys_iff:
  "K \<in> set (OptionalKeys Changes) \<longleftrightarrow> (\<exists>c. map_of Changes K = Some c \<and> optional_change c)"
  by (auto simp: OptionalKeys_def optional_change_def keyof_changes_iff split: option.splits change.splits)

lemma RequiredKeys_iff:
  "K \<in> set (RequiredKeys Changes) \<longleftrightarrow> (\<exists>c. map_of Changes K = Some c \<and> \<not> optional_change c)"
  by (auto simp: RequiredKeys_def OptionalKeys_iff keyof_changes_iff)

lemma merge_member_lookup:
  "map_of (merge_member T Changes) K =
     (case map_of Changes K of
        Some c \<Rightarrow> Some (optional_change c, InferZodType c)
      | None \<Rightarrow> map_of T K)"
proof -
  let ?req = "map_of (map (\<lambda>K. (K, False, changed_type Changes K)) (RequiredKeys Changes)) K"
  let ?opt = "map_of (map (\<lambda>K. (K, True, changed_type Changes K)) (OptionalKeys Changes)) K"
  let ?omit = "map_of (Omit T (keyof_changes Changes)) K"
  have split: "map_of (merge_member T Changes) K =
      (case ?omit of Some p \<Rightarrow> Some p
       | None \<Rightarrow> (case ?req of Some p \<Rightarrow> Some p | None \<Rightarrow> ?opt))"
    by (cases ?omit; cases ?req) (simp_all add: merge_member_def map_add_def)
  show ?thesis
  proof (cases "map_of Changes K")
    case None
    then have "K \<notin> set (keyof_changes Changes)" "K \<notin> set (RequiredKeys Changes)"
      "K \<notin> set (OptionalKeys Changes)"
      by (simp_all add: keyof_changes_iff RequiredKeys_iff OptionalKeys_iff)
    with None show ?thesis
      by (simp add: split map_of_keyed map_of_Omit split: option.split)
  next
    case (Some c)
    show ?thesis
    proof (cases "optional_change c")
      case True
      with Some have "K \<in> set (OptionalKeys Changes)" "K \<notin> set (RequiredKeys Changes)"
        "K \<in> set (keyof_changes Changes)"
        by (simp_all add: OptionalKeys_iff RequiredKeys_iff keyof_changes_iff)
      with Some True show ?thesis
        by (simp add: split map_of_keyed map_of_Omit changed_type_def)
    next
      case False
      with Some have "K \<notin> set (OptionalKeys Changes)" "K \<in> set (RequiredKeys Changes)"
        "K \<in> set (keyof_changes Changes)"
        by (simp_all add: RequiredKeys_iff OptionalKeys_iff keyof_changes_iff)
      with Some False show ?thesis
        by (simp add: split map_of_keyed map_of_Omit changed_type_def)
    qed
  qed
qed

text \<open>
  Claim C7: \<open>MergeSchemaChanges<T, Changes>\<close> has one object type for each constituent
  of \<open>T\<close>; in it a key of \<open>Changes\<close> whose schema (or the schema its function returns)
  is optional is an optional property of the inferred type, a key whose schema is not
  optional is a required property of the inferred type, and a property of the
  constituent that \<open>Changes\<close> does not name is as it was.
\<close>

theorem MergeSchemaChanges_members:
  assumes "i < length T"
  shows "length (MergeSchemaChanges T Changes) = length T
    \<and> map_of (MergeSchemaChanges T Changes ! i) K =
        (case map_of Changes K of
           Some c \<Rightarrow> Some (optional_change c, InferZodType c)
         | None \<Rightarrow> map_of (T ! i) K)"
  using assms by (simp add: MergeSchemaChanges_def merge_member_lookup)

theorem MergeSchemaChanges_members_witness:
  "map_of (MergeSchemaChanges [[(''id'', False, TString), (''name'', False, TString)]]
       [(''name'', ChangeSchema (ZodOptional (ZodType TString))),
        (''age'', ChangeFunction (ZodType TNumber))] ! 0) ''name''
     = Some (True, TUnion [TString, TUndefined])
   \<and> map_of (MergeSchemaChanges [[(''id'', False, TString), (''name'', False, TString)]]
       [(''name'', ChangeSchema (ZodOptional (ZodType TString))),
        (''age'', ChangeFunction (ZodType TNumber))] ! 0) ''age''
     = Some (False, TNumber)
   \<and> map_of (MergeSchemaChanges [[(''id'', False, TString), (''name'', False, TString)]]
       [(''name'', ChangeSchema (ZodOptional (ZodType TString))),
        (''age'', ChangeFunction (ZodType TNumber))] ! 0) ''id''
     = Some (False, TString)"
  using MergeSchemaChanges_members [of 0 "[[(''id'', False, TString), (''name'', False, TString)]]"
      "[(''name'', ChangeSchema (ZodOptional (ZodType TString))),
        (''age'', ChangeFunction (ZodType TNumber))]" "''name''"]
    MergeSchemaChanges_members [of 0 "[[(''id'', False, TString), (''name'', False, TString)]]"
      "[(''name'', ChangeSchema (ZodOptional (ZodType TString))),
        (''age'', ChangeFunction (ZodType TNumber))]" "''age''"]
    MergeSchemaChanges_members [of 0 "[[(''id'', False, TString), (''name'', False, TString)]]"
      "[(''name'', ChangeSchema (ZodOptional (ZodType TString))),
        (''age'', ChangeFunction (ZodType TNumber))]" "''id''"]
  by (simp add: optional_change_def)

end
